theory Spec2Isabelle
  imports Complex_Main "HOL-Library.Word" "HOL-Library.AList"
begin

section \<open>Page interaction controller of \<^verbatim>\<open>src/js/script.js\<close>\<close>

text \<open>
  The script attaches handlers to a page: field validation, a simulated form submission,
  a project filter, an FAQ accordion and a scroll reveal. Each handler is embedded as a
  function on the part of the page it reads and writes. A handler that schedules a timer
  returns the timer; the timer's callback is a function of its own, applied to the page as
  it is when the timer fires.
\<close>

subsection \<open>Strings\<close>

text \<open>
  A JavaScript string is a sequence of 16-bit code units. \<open>js\<close> turns an ASCII literal
  into one. \<open>isWhiteSpace\<close> is the set that both \<^verbatim>\<open>String.prototype.trim\<close> and the
  regular-expression class \<^verbatim>\<open>\s\<close> use (WhiteSpace and LineTerminator of ECMAScript);
  \<open>isDigit\<close> is the class \<^verbatim>\<open>\d\<close>, the ten ASCII digits.
\<close>

type_synonym jschar = "16 word"
type_synonym jsstring = "jschar list"

definition js :: "string \<Rightarrow> jsstring" where
  "js s = map of_char s"

definition isWhiteSpace :: "jschar \<Rightarrow> bool" where
  "isWhiteSpace c \<longleftrightarrow>
     c \<in> {0x0009, 0x000A, 0x000B, 0x000C, 0x000D, 0x0020, 0x00A0, 0x1680,
          0x2000, 0x2001, 0x2002, 0x2003, 0x2004, 0x2005, 0x2006, 0x2007,
          0x2008, 0x2009, 0x200A, 0x2028, 0x2029, 0x202F, 0x205F, 0x3000, 0xFEFF}"

definition isDigit :: "jschar \<Rightarrow> bool" where
  "isDigit c \<longleftrightarrow> 0x30 \<le> c \<and> c \<le> 0x39"

definition trim :: "jsstring \<Rightarrow> jsstring" where
  "trim s = rev (dropWhile isWhiteSpace (rev (dropWhile isWhiteSpace s)))"

subsection \<open>The two regular expressions\<close>

text \<open>
  Both patterns of \<open>validateField\<close> are anchored at both ends and are sequences of
  character sets, each taken once, one or more times (\<^verbatim>\<open>+\<close>) or between m and n
  times (\<^verbatim>\<open>{m,n}\<close>). \<open>matches\<close> is \<^verbatim>\<open>RegExp.prototype.test\<close> for such a
  pattern: it tries every way of dividing the string between the pieces.
  \<open>emailRegex\<close> is \<^verbatim>\<open>/^[^\s@]+@[^\s@]+\.[^\s@]+$/\<close> and \<open>phoneRegex\<close> is
  \<^verbatim>\<open>/^[\d\s\-\+\(\)]{10,15}$/\<close>.
\<close>

datatype atom = Digit | Space | Lit jschar

fun atomHas :: "atom \<Rightarrow> jschar \<Rightarrow> bool" where
  "atomHas Digit c = isDigit c"
| "atomHas Space c = isWhiteSpace c"
| "atomHas (Lit d) c = (c = d)"

datatype charset = Chr jschar | Set "atom list" | NegSet "atom list"

fun accepts :: "charset \<Rightarrow> jschar \<Rightarrow> bool" where
  "accepts (Chr d) c = (c = d)"
| "accepts (Set as) c = (\<exists>a \<in> set as. atomHas a c)"
| "accepts (NegSet as) c = (\<not> (\<exists>a \<in> set as. atomHas a c))"

datatype piece = One charset | Many1 charset | Between nat nat charset

fun matches :: "piece list \<Rightarrow> jsstring \<Rightarrow> bool" where
  "matches [] s = (s = [])"
| "matches (One k # rs) [] = False"
| "matches (One k # rs) (c # cs) = (accepts k c \<and> matches rs cs)"
| "matches (Many1 k # rs) [] = False"
| "matches (Many1 k # rs) (c # cs) =
     (accepts k c \<and> (matches (Many1 k # rs) cs \<or> matches rs cs))"
| "matches (Between m n k # rs) [] = (m = 0 \<and> matches rs [])"
| "matches (Between m n k # rs) (c # cs) =
     ((m = 0 \<and> matches rs (c # cs)) \<or>
      (0 < n \<and> accepts k c \<and> matches (Between (m - 1) (n - 1) k # rs) cs))"

definition emailRegex :: "piece list" where
  "emailRegex =
     [Many1 (NegSet [Space, Lit (of_char CHR ''@'')]), One (Chr (of_char CHR ''@'')),
      Many1 (NegSet [Space, Lit (of_char CHR ''@'')]), One (Chr (of_char CHR ''.'')),
      Many1 (NegSet [Space, Lit (of_char CHR ''@'')])]"

definition phoneRegex :: "piece list" where
  "phoneRegex =
     [Between 10 15 (Set [Digit, Space, Lit (of_char CHR ''-''), Lit (of_char CHR ''+''),
                          Lit (of_char CHR ''(''), Lit (of_char CHR '')'')])]"

subsection \<open>Field validation\<close>

text \<open>
  A form control, with what \<open>validateField\<close> reads of it: the \<^verbatim>\<open>required\<close> flag, the
  \<^verbatim>\<open>type\<close> and the \<^verbatim>\<open>value\<close>. \<open>errorElement\<close> is the text of the first
  \<^verbatim>\<open>.error-message\<close> element inside the control's parent, \<open>None\<close> when the parent has
  none (\<^verbatim>\<open>querySelector\<close> returns null). A control of a document always has a parent
  element, and each control is taken to have a wrapper of its own. \<open>fname\<close> and
  \<open>defaultValue\<close> are what \<^verbatim>\<open>FormData\<close> and \<^verbatim>\<open>form.reset()\<close> read.
\<close>

record field =
  fname :: jsstring
  required :: bool
  ftype :: jsstring
  fvalue :: jsstring
  defaultValue :: jsstring
  errorElement :: "jsstring option"

text \<open>\<open>validateField\<close> returns the control, with its error text as written, and \<open>isValid\<close>.\<close>

definition validateField :: "field \<Rightarrow> field \<times> bool" where
  "validateField field =
     (if \<not> required field \<and> trim (fvalue field) = [] then (field, True)
      else
        let (isValid, errorMessage) =
          (if required field \<and> trim (fvalue field) = [] then
             (False, js ''This field is required'')
           else if ftype field = js ''email'' \<and> trim (fvalue field) \<noteq> [] then
             (if \<not> matches emailRegex (trim (fvalue field)) then
                (False, js ''Please enter a valid email address'')
              else (True, []))
           else if ftype field = js ''tel'' \<and> trim (fvalue field) \<noteq> [] then
             (if \<not> matches phoneRegex (trim (fvalue field)) then
                (False, js ''Please enter a valid phone number'')
              else (True, []))
           else (True, []))
        in
          (if \<not> isValid \<and> errorElement field \<noteq> None then
             (field\<lparr>errorElement := Some errorMessage\<rparr>, isValid)
           else if errorElement field \<noteq> None then
             (field\<lparr>errorElement := Some []\<rparr>, isValid)
           else (field, isValid)))"


definition phoneChar :: "jschar \<Rightarrow> bool" where
  "phoneChar c \<longleftrightarrow> isDigit c \<or> isWhiteSpace c \<or> c = of_char CHR ''-'' \<or> c = of_char CHR ''+''
     \<or> c = of_char CHR ''('' \<or> c = of_char CHR '')''"



definition spec_phone_char :: "jschar \<Rightarrow> bool" where
  "spec_phone_char c \<longleftrightarrow> isDigit c \<or> c = of_char CHR '' '' \<or> c = of_char CHR ''-''
     \<or> c = of_char CHR ''+'' \<or> c = of_char CHR ''('' \<or> c = of_char CHR '')''"

definition spec_phone_pattern :: "jsstring \<Rightarrow> bool" where
  "spec_phone_pattern v \<longleftrightarrow> 10 \<le> length v \<and> length v \<le> 15 \<and> list_all spec_phone_char v"

subsection \<open>Form submission\<close>

text \<open>
  The message region \<^verbatim>\<open>#formMessage\<close>: its text, its class list, the three inline styles
  that \<open>showFormMessage\<close> writes, and how often it was scrolled into view.
\<close>

record messageElement =
  textContent :: jsstring
  className :: "jsstring list"
  backgroundColor :: jsstring
  color :: jsstring
  border :: jsstring
  scrolledIntoView :: nat

text \<open>
  \<open>showFormMessage\<close> returns at once when the element is null (\<open>None\<close>). The class name
  is first set to the one class \<^verbatim>\<open>form-message\<close>, so \<^verbatim>\<open>classList.add\<close> appends.
\<close>

definition showFormMessage ::
    "messageElement option \<Rightarrow> jsstring \<Rightarrow> jsstring \<Rightarrow> messageElement option" where
  "showFormMessage element message type =
     (case element of
        None \<Rightarrow> None
      | Some e \<Rightarrow>
          let e1 = e\<lparr>textContent := message, className := [js ''form-message'']\<rparr> in
          if type = js ''success'' then Some (e1\<lparr>className := className e1 @ [js ''success'']\<rparr>)
          else if type = js ''error'' then Some (e1\<lparr>className := className e1 @ [js ''error'']\<rparr>)
          else if type = js ''info'' then
            Some (e1\<lparr>backgroundColor := js ''rgba(33, 33, 33, 0.1)'',
                     color := js ''#212121'',
                     border := js ''1px solid #212121''\<rparr>)
          else Some e1)"

text \<open>
  The page as the submit handler sees it: the controls of the form in tree order, the
  message region (\<open>None\<close> when \<^verbatim>\<open>getElementById\<close> finds none) and the console.
\<close>

type_synonym formData = "(jsstring \<times> jsstring) list"

record page =
  formFields :: "field list"
  formMessage :: "messageElement option"
  console :: "formData list"

datatype error = TypeError

text \<open>
  \<^verbatim>\<open>new FormData(form)\<close> lists the named controls with their values;
  \<^verbatim>\<open>form.reset()\<close> gives every control its default value back.
\<close>

definition formDataOf :: "field list \<Rightarrow> formData" where
  "formDataOf fs = map (\<lambda>f. (fname f, fvalue f)) (filter (\<lambda>f. fname f \<noteq> []) fs)"

definition reset :: "field \<Rightarrow> field" where
  "reset f = f\<lparr>fvalue := defaultValue f\<rparr>"

text \<open>
  The loop over \<^verbatim>\<open>form.querySelectorAll('[required]')\<close>: every required control is
  validated, also after one has failed, and \<open>isValid\<close> is lowered on each failure.
\<close>

fun validateRequired :: "field list \<Rightarrow> bool \<Rightarrow> field list \<times> bool" where
  "validateRequired [] isValid = ([], isValid)"
| "validateRequired (f # fs) isValid =
     (if required f then
        (let (f', ok) = validateField f;
             (fs', v) = validateRequired fs (if \<not> ok then False else isValid)
         in (f' # fs', v))
      else
        (let (fs', v) = validateRequired fs isValid in (f # fs', v)))"

text \<open>
  \<open>handleFormSubmit\<close> returns the page and the timer it has set, if any: the delay in
  milliseconds and the form data its callback has captured. \<open>submitTimeout\<close> is the
  callback. Its last statement calls \<^verbatim>\<open>scrollIntoView\<close> on the message region without
  a test, which throws when the region is null; the error carries the page as the
  statements before it have left it.
\<close>

definition handleFormSubmit :: "page \<Rightarrow> page \<times> (nat \<times> formData) option" where
  "handleFormSubmit p =
     (let formData = formDataOf (formFields p);
          (fs, isValid) = validateRequired (formFields p) True;
          p1 = p\<lparr>formFields := fs\<rparr>
      in
        if \<not> isValid then
          (p1\<lparr>formMessage := showFormMessage (formMessage p1)
                   (js ''Please correct the errors in the form.'') (js ''error'')\<rparr>, None)
        else
          (p1\<lparr>formMessage := showFormMessage (formMessage p1)
                   (js ''Sending your message...'') (js ''info'')\<rparr>, Some (1500, formData)))"

definition thankYou :: jsstring where
  "thankYou = js ''Thank you for your message! We will respond to your inquiry within 24 hours.''"

definition submitTimeout :: "formData \<Rightarrow> page \<Rightarrow> (error \<times> page) + page" where
  "submitTimeout formData p =
     (let submissionData = foldl (\<lambda>d (key, v). AList.update key v d) [] formData;
          p1 = p\<lparr>console := console p @ [submissionData]\<rparr>;
          p2 = p1\<lparr>formMessage := showFormMessage (formMessage p1) thankYou (js ''success'')\<rparr>;
          p3 = p2\<lparr>formFields := map reset (formFields p2)\<rparr>
      in
        case formMessage p3 of
          None \<Rightarrow> Inl (TypeError, p3)
        | Some e \<Rightarrow> Inr (p3\<lparr>formMessage := Some (e\<lparr>scrolledIntoView := Suc (scrolledIntoView e)\<rparr>)\<rparr>))"

text \<open>
  The submission state of the specification, read off the message region: the script keeps
  no state variable, the text on display is the state.
\<close>

datatype SubmissionState = Idle | Sending | Success | Error

definition spec_state :: "page \<Rightarrow> SubmissionState" where
  "spec_state p =
     (case formMessage p of
        None \<Rightarrow> Idle
      | Some e \<Rightarrow>
          if textContent e = js ''Sending your message...'' then Sending
          else if textContent e = thankYou then Success
          else if textContent e = js ''Please correct the errors in the form.'' then Error
          else Idle)"

subsection \<open>Project filter\<close>

text \<open>
  A project item carries its \<^verbatim>\<open>data-category\<close> attribute and three inline styles; a
  filter button carries its \<^verbatim>\<open>data-filter\<close> attribute and whether it has the class
  \<^verbatim>\<open>active\<close>. The markup gives every item and every button its attribute.
  \<open>split\<close> is \<^verbatim>\<open>String.prototype.split\<close> with a one-character separator.
\<close>

record projectItem =
  data_category :: jsstring
  display :: jsstring
  opacity :: jsstring
  transform :: jsstring

record filterButton =
  data_filter :: jsstring
  active :: bool

fun split :: "jschar \<Rightarrow> jsstring \<Rightarrow> jsstring list" where
  "split sep [] = [[]]"
| "split sep (c # cs) =
     (if c = sep then [] # split sep cs
      else (case split sep cs of [] \<Rightarrow> [[c]] | w # ws \<Rightarrow> (c # w) # ws))"

text \<open>
  The two timer callbacks of the click handler, each for the item at an index: the reveal
  set for 10 ms and the removal from the layout set for 300 ms. The state keeps the
  clock in milliseconds and every pending timer with the time it is due; no timer is ever
  cancelled.
\<close>

datatype filterTimer = Reveal nat | Remove nat

record filterState =
  filterButtons :: "filterButton list"
  projectItems :: "projectItem list"
  now :: nat
  timers :: "(nat \<times> filterTimer) list"

definition arrayIncludes :: "jsstring list \<Rightarrow> jsstring \<Rightarrow> bool" where
  "arrayIncludes categories filterValue \<longleftrightarrow> filterValue \<in> set categories"

definition filterItem ::
    "jsstring \<Rightarrow> nat \<Rightarrow> nat \<times> projectItem \<Rightarrow> projectItem \<times> (nat \<times> filterTimer)" where
  "filterItem filterValue t ix =
     (let i = fst ix; item = snd ix;
          categories = split (of_char CHR '' '') (data_category item)
      in
        if filterValue = js ''all'' \<or> arrayIncludes categories filterValue then
          (item\<lparr>display := js ''block''\<rparr>, (t + 10, Reveal i))
        else
          (item\<lparr>opacity := js ''0'', transform := js ''scale(0.8)''\<rparr>, (t + 300, Remove i)))"

text \<open>The test of \<open>filterItem\<close>, on its own.\<close>

definition passes :: "jsstring \<Rightarrow> projectItem \<Rightarrow> bool" where
  "passes t item \<longleftrightarrow> t = js ''all'' \<or> t \<in> set (split (of_char CHR '' '') (data_category item))"

text \<open>
  A click on the button at index \<open>b\<close>. \<open>initProjectFilter\<close> attaches no handler when the
  page has no filter button or no project item.
\<close>

definition filterClick :: "nat \<Rightarrow> filterState \<Rightarrow> filterState" where
  "filterClick b s =
     (if b < length (filterButtons s) \<and> projectItems s \<noteq> [] then
        let btns = map (\<lambda>btn. btn\<lparr>active := False\<rparr>) (filterButtons s);
            btns' = btns[b := (btns ! b)\<lparr>active := True\<rparr>];
            filterValue = data_filter (filterButtons s ! b);
            rs = map (filterItem filterValue (now s)) (enumerate 0 (projectItems s))
        in s\<lparr>filterButtons := btns', projectItems := map fst rs, timers := timers s @ map snd rs\<rparr>
      else s)"

definition fire :: "projectItem list \<Rightarrow> filterTimer \<Rightarrow> projectItem list" where
  "fire its t =
     (case t of
        Reveal i \<Rightarrow> (if i < length its
                      then its[i := (its ! i)\<lparr>opacity := js ''1'', transform := js ''scale(1)''\<rparr>]
                      else its)
      | Remove i \<Rightarrow> (if i < length its then its[i := (its ! i)\<lparr>display := js ''none''\<rparr>] else its))"

text \<open>
  Time passes with no click: every timer that falls due fires, the earliest first, those
  due together in the order they were set.
\<close>

definition elapse :: "nat \<Rightarrow> filterState \<Rightarrow> filterState" where
  "elapse ms s =
     (let t = now s + ms;
          due = filter (\<lambda>x. fst x \<le> t) (timers s);
          later = filter (\<lambda>x. \<not> fst x \<le> t) (timers s)
      in s\<lparr>projectItems := foldl fire (projectItems s) (map snd (sort_key fst due)),
           now := t, timers := later\<rparr>)"

definition shown :: "projectItem \<Rightarrow> bool" where
  "shown item \<longleftrightarrow> display item = js ''block'' \<and> opacity item = js ''1''
     \<and> transform item = js ''scale(1)''"

definition hidden :: "projectItem \<Rightarrow> bool" where
  "hidden item \<longleftrightarrow> display item = js ''none'' \<and> opacity item = js ''0''
     \<and> transform item = js ''scale(0.8)''"

subsection \<open>FAQ accordion\<close>

text \<open>
  A question with the answer that follows it (\<^verbatim>\<open>nextElementSibling\<close>; the markup pairs
  each question with one): whether each has the class \<^verbatim>\<open>active\<close>, and the answer's
  inline \<^verbatim>\<open>max-height\<close> in pixels, \<open>None\<close> when it is unset.
\<close>

record faqPair =
  questionActive :: bool
  answerActive :: bool
  maxHeight :: "nat option"
  scrollHeight :: nat

definition toggleAnswer :: "faqPair \<Rightarrow> faqPair" where
  "toggleAnswer q =
     (if answerActive q then q\<lparr>answerActive := False, maxHeight := None\<rparr>
      else q\<lparr>answerActive := True, maxHeight := Some (scrollHeight q)\<rparr>)"

definition closeOther :: "nat \<Rightarrow> nat \<times> faqPair \<Rightarrow> faqPair" where
  "closeOther this iq =
     (let otherQuestion = snd iq in
      if fst iq \<noteq> this \<and> questionActive otherQuestion then
        otherQuestion\<lparr>questionActive := False, answerActive := False, maxHeight := None\<rparr>
      else otherQuestion)"

text \<open>A click on the question at index \<open>this\<close>; an index with no question has no handler.\<close>

definition faqClick :: "nat \<Rightarrow> faqPair list \<Rightarrow> faqPair list" where
  "faqClick this faqQuestions =
     (if this < length faqQuestions then
        let q = faqQuestions ! this;
            q1 = q\<lparr>questionActive := \<not> questionActive q\<rparr>;
            qs1 = faqQuestions[this := toggleAnswer q1]
        in map (closeOther this) (enumerate 0 qs1)
      else faqQuestions)"

definition faqClicks :: "faqPair list \<Rightarrow> nat list \<Rightarrow> faqPair list" where
  "faqClicks faqQuestions clicks = foldl (\<lambda>qs this. faqClick this qs) faqQuestions clicks"

definition expanded :: "faqPair \<Rightarrow> bool" where
  "expanded q \<longleftrightarrow> answerActive q"

definition consistent :: "faqPair list \<Rightarrow> bool" where
  "consistent qs \<longleftrightarrow> list_all (\<lambda>q. questionActive q = answerActive q) qs"

definition openCount :: "faqPair list \<Rightarrow> nat" where
  "openCount qs = length (filter expanded qs)"

subsection \<open>Scroll reveal\<close>

text \<open>
  An animated element with the two inline styles the reveal writes. The layout is the
  browser's: each event brings the window's inner size and the top edge of every tracked
  element, by index, as \<^verbatim>\<open>getBoundingClientRect\<close> reports it at that moment. The
  threshold is computed over the reals.
\<close>

record animated =
  animOpacity :: jsstring
  animTransform :: jsstring

record viewport =
  innerWidth :: int
  innerHeight :: int
  topOf :: "nat \<Rightarrow> real"

definition revealOne :: "viewport \<Rightarrow> nat \<times> animated \<Rightarrow> animated" where
  "revealOne w ie =
     (let elementPosition = topOf w (fst ie);
          screenPosition = real_of_int (innerHeight w) / 1.2
      in if elementPosition < screenPosition
         then (snd ie)\<lparr>animOpacity := js ''1'', animTransform := js ''translateY(0)''\<rparr>
         else snd ie)"

definition handleScrollAnimations :: "viewport \<Rightarrow> animated list \<Rightarrow> animated list" where
  "handleScrollAnimations w animatedElements = map (revealOne w) (enumerate 0 animatedElements)"

text \<open>
  The window: the tracked elements, whether \<open>initScrollAnimations\<close> has added its scroll
  listener, and whether the debounce timer \<^verbatim>\<open>scrollTimeout\<close> is pending. The script
  adds the debouncing scroll listener at top level, outside \<open>initScrollAnimations\<close> and
  before \<^verbatim>\<open>DOMContentLoaded\<close>, so it runs first on every scroll event.
\<close>

record window =
  animatedElements :: "animated list"
  scrollListener :: bool
  scrollTimeout :: bool

datatype event = DOMContentLoaded viewport | Scroll viewport | TimeoutFired viewport

definition initScrollAnimations :: "viewport \<Rightarrow> window \<Rightarrow> window" where
  "initScrollAnimations w s =
     (if innerWidth w > 768 then
        s\<lparr>scrollListener := True,
          animatedElements := handleScrollAnimations w (animatedElements s)\<rparr>
      else s)"

fun step :: "window \<Rightarrow> event \<Rightarrow> window" where
  "step s (DOMContentLoaded w) = initScrollAnimations w s"
| "step s (Scroll w) =
     (let s1 = s\<lparr>scrollTimeout := True\<rparr> in
      if scrollListener s1
      then s1\<lparr>animatedElements := handleScrollAnimations w (animatedElements s1)\<rparr>
      else s1)"
| "step s (TimeoutFired w) =
     (if scrollTimeout s
      then s\<lparr>scrollTimeout := False,
             animatedElements := handleScrollAnimations w (animatedElements s)\<rparr>
      else s)"

definition run :: "window \<Rightarrow> event list \<Rightarrow> window" where
  "run s evs = foldl step s evs"

definition pageLoad :: "animated list \<Rightarrow> window" where
  "pageLoad els = \<lparr>animatedElements = els, scrollListener = False, scrollTimeout = False\<rparr>"

definition revealed :: "animated \<Rightarrow> bool" where
  "revealed e \<longleftrightarrow> animOpacity e = js ''1'' \<and> animTransform e = js ''translateY(0)''"

subsection \<open>Sample pages\<close>

text \<open>Concrete controls, pages and layouts on which the handlers are run below.\<close>

definition textField :: "bool \<Rightarrow> jsstring \<Rightarrow> jsstring \<Rightarrow> field" where
  "textField req ty v =
     \<lparr>fname = js ''f'', required = req, ftype = ty, fvalue = v, defaultValue = [],
      errorElement = Some []\<rparr>"

definition emptyMessage :: messageElement where
  "emptyMessage =
     \<lparr>textContent = [], className = [js ''form-message''], backgroundColor = [], color = [],
      border = [], scrolledIntoView = 0\<rparr>"

definition validPage :: "messageElement option \<Rightarrow> page" where
  "validPage region =
     \<lparr>formFields = [textField True (js ''text'') (js ''Ann'')], formMessage = region, console = []\<rparr>"

definition invalidPage :: "messageElement option \<Rightarrow> page" where
  "invalidPage region =
     \<lparr>formFields = [textField True (js ''text'') []], formMessage = region, console = []\<rparr>"

definition tabbedNumber :: jsstring where
  "tabbedNumber = js ''12345'' @ [0x0009] @ js ''67890''"

definition plainItem :: "jsstring \<Rightarrow> projectItem" where
  "plainItem cat = \<lparr>data_category = cat, display = [], opacity = [], transform = []\<rparr>"

definition twoButtons :: "filterButton list" where
  "twoButtons = [\<lparr>data_filter = js ''all'', active = True\<rparr>,
                 \<lparr>data_filter = js ''commercial'', active = False\<rparr>]"

definition filterStart :: filterState where
  "filterStart =
     \<lparr>filterButtons = twoButtons, projectItems = [plainItem (js ''residential'')],
      now = 0, timers = []\<rparr>"

definition closedPair :: faqPair where
  "closedPair = \<lparr>questionActive = False, answerActive = False, maxHeight = None, scrollHeight = 40\<rparr>"

definition openPair :: faqPair where
  "openPair = \<lparr>questionActive = True, answerActive = True, maxHeight = Some 40, scrollHeight = 40\<rparr>"

definition orphanPair :: faqPair where
  "orphanPair = \<lparr>questionActive = False, answerActive = True, maxHeight = None, scrollHeight = 40\<rparr>"

definition offsetElement :: animated where
  "offsetElement = \<lparr>animOpacity = js ''0'', animTransform = js ''translateY(20px)''\<rparr>"

definition phone :: viewport where
  "phone = \<lparr>innerWidth = 375, innerHeight = 667, topOf = (\<lambda>i. 100)\<rparr>"

definition desktopInView :: viewport where
  "desktopInView = \<lparr>innerWidth = 1280, innerHeight = 720, topOf = (\<lambda>i. 100)\<rparr>"

definition desktopBelowFold :: viewport where
  "desktopBelowFold = \<lparr>innerWidth = 1280, innerHeight = 720, topOf = (\<lambda>i. 2000)\<rparr>"

section \<open>Auxiliary facts\<close>



lemma matches_Between:
  "matches (Between m n k # rs) s \<longleftrightarrow>
     (\<exists>u v. s = u @ v \<and> m \<le> length u \<and> length u \<le> n \<and> (\<forall>c \<in> set u. accepts k c) \<and> matches rs v)"
proof (induction s arbitrary: m n)
  case Nil
  then show ?case by auto
next
  case (Cons c cs)
  show ?case
  proof
    assume "matches (Between m n k # rs) (c # cs)"
    then consider "m = 0" "matches rs (c # cs)"
      | "0 < n" "accepts k c" "matches (Between (m - 1) (n - 1) k # rs) cs"
      by auto
    then show "\<exists>u v. c # cs = u @ v \<and> m \<le> length u \<and> length u \<le> n \<and> (\<forall>c \<in> set u. accepts k c) \<and> matches rs v"
    proof cases
      case 1
      then have "c # cs = [] @ (c # cs) \<and> m \<le> length ([]::jsstring) \<and> length ([]::jsstring) \<le> n
          \<and> (\<forall>c \<in> set []. accepts k c) \<and> matches rs (c # cs)"
        by simp
      then show ?thesis by blast
    next
      case 2
      then obtain u v where "cs = u @ v" "m - 1 \<le> length u" "length u \<le> n - 1"
          "\<forall>c \<in> set u. accepts k c" "matches rs v"
        using Cons.IH by blast
      with 2 have "c # cs = (c # u) @ v \<and> m \<le> length (c # u) \<and> length (c # u) \<le> n
          \<and> (\<forall>c \<in> set (c # u). accepts k c) \<and> matches rs v"
        by auto
      then show ?thesis by blast
    qed
  next
    assume "\<exists>u v. c # cs = u @ v \<and> m \<le> length u \<and> length u \<le> n \<and> (\<forall>c \<in> set u. accepts k c) \<and> matches rs v"
    then obtain u v where uv: "c # cs = u @ v" "m \<le> length u" "length u \<le> n"
        "\<forall>c \<in> set u. accepts k c" "matches rs v"
      by blast
    show "matches (Between m n k # rs) (c # cs)"
    proof (cases u)
      case Nil
      with uv have "v = c # cs" "m = 0" by simp_all
      with uv(5) show ?thesis by simp
    next
      case (Cons d u')
      with uv have "cs = u' @ v" "m - 1 \<le> length u'" "length u' \<le> n - 1"
          "\<forall>c \<in> set u'. accepts k c" "d = c" "0 < n"
        by auto
      then have "matches (Between (m - 1) (n - 1) k # rs) cs"
        using Cons.IH uv(5) by blast
      with Cons uv \<open>d = c\<close> \<open>0 < n\<close> show ?thesis by simp
    qed
  qed
qed


lemma accepts_phone [simp]:
  "accepts (Set [Digit, Space, Lit (of_char CHR ''-''), Lit (of_char CHR ''+''),
                 Lit (of_char CHR ''(''), Lit (of_char CHR '')'')]) c = phoneChar c"
  by (simp add: phoneChar_def)


lemma phoneRegex_iff:
  "matches phoneRegex s \<longleftrightarrow> 10 \<le> length s \<and> length s \<le> 15 \<and> (\<forall>c \<in> set s. phoneChar c)"
proof -
  have "matches phoneRegex s \<longleftrightarrow>
      (\<exists>u v. s = u @ v \<and> 10 \<le> length u \<and> length u \<le> 15 \<and> (\<forall>c \<in> set u. phoneChar c) \<and> v = [])"
    unfolding phoneRegex_def matches_Between [of _ _ _ _ s] accepts_phone by simp
  then show ?thesis by auto
qed

lemma js_Nil [simp]: "js [] = []"
  by (simp add: js_def)

lemma js_eq_Nil [simp]: "js s = [] \<longleftrightarrow> s = []"
  by (simp add: js_def)

lemma email_neq_tel: "js ''email'' \<noteq> js ''tel''"
  by (simp add: js_def)

lemma validateField_valid_iff:
  "snd (validateField f) \<longleftrightarrow>
     (if trim (fvalue f) = [] then \<not> required f
      else if ftype f = js ''email'' then matches emailRegex (trim (fvalue f))
      else if ftype f = js ''tel'' then matches phoneRegex (trim (fvalue f))
      else True)"
  by (simp add: validateField_def Let_def)

lemma validateField_fvalue [simp]: "fvalue (fst (validateField f)) = fvalue f"
  by (simp add: validateField_def Let_def)

lemma trim_literals:
  "trim (js ''a@b.co'') = js ''a@b.co''"
  "trim (js ''abc'') = js ''abc''"
  "trim (js ''a@b@c.de'') = js ''a@b@c.de''"
  "trim (js ''+91 98765 43210'') = js ''+91 98765 43210''"
  "trim (js ''12345'') = js ''12345''"
  "trim tabbedNumber = tabbedNumber"
  by (simp_all add: trim_def js_def isWhiteSpace_def tabbedNumber_def)

lemma email_literals:
  "matches emailRegex (js ''a@b.co'')"
  "\<not> matches emailRegex (js ''abc'')"
  "\<not> matches emailRegex (js ''a@b@c.de'')"
  by (simp_all add: emailRegex_def js_def isWhiteSpace_def)

lemma phone_literals:
  "matches phoneRegex (js ''+91 98765 43210'')"
  "\<not> matches phoneRegex (js ''12345'')"
  "matches phoneRegex tabbedNumber"
  by (simp_all add: phoneRegex_def js_def isWhiteSpace_def isDigit_def tabbedNumber_def)

lemma validateRequired_snd:
  "snd (validateRequired fs b) \<longleftrightarrow> b \<and> (\<forall>f \<in> set fs. required f \<longrightarrow> snd (validateField f))"
  by (induction fs arbitrary: b) (auto simp: case_prod_unfold Let_def)

lemma validateRequired_fvalue:
  "map fvalue (fst (validateRequired fs b)) = map fvalue fs"
  by (induction fs arbitrary: b) (auto simp: case_prod_unfold Let_def)

lemma type_literals:
  "js ''info'' \<noteq> js ''success''" "js ''info'' \<noteq> js ''error''" "js ''error'' \<noteq> js ''success''"
  by (simp_all add: js_def)

lemma message_literals:
  "thankYou \<noteq> js ''Sending your message...''"
  "js ''Please correct the errors in the form.'' \<noteq> js ''Sending your message...''"
  "js ''Please correct the errors in the form.'' \<noteq> thankYou"
  by (simp_all add: js_def thankYou_def)

lemma showFormMessage_info:
  "showFormMessage (Some m) msg (js ''info'') =
     Some (m\<lparr>textContent := msg, className := [js ''form-message''],
             backgroundColor := js ''rgba(33, 33, 33, 0.1)'', color := js ''#212121'',
             border := js ''1px solid #212121''\<rparr>)"
  by (simp add: showFormMessage_def Let_def type_literals)

lemma showFormMessage_error:
  "showFormMessage (Some m) msg (js ''error'') =
     Some (m\<lparr>textContent := msg, className := [js ''form-message'', js ''error'']\<rparr>)"
  by (simp add: showFormMessage_def Let_def type_literals)

lemma showFormMessage_success:
  "showFormMessage (Some m) msg (js ''success'') =
     Some (m\<lparr>textContent := msg, className := [js ''form-message'', js ''success'']\<rparr>)"
  by (simp add: showFormMessage_def Let_def)

lemma showFormMessage_None: "showFormMessage None msg ty = None"
  by (simp add: showFormMessage_def)

lemma handleFormSubmit_valid:
  assumes "\<forall>f \<in> set (formFields p). required f \<longrightarrow> snd (validateField f)"
  shows "handleFormSubmit p =
     (p\<lparr>formFields := fst (validateRequired (formFields p) True),
        formMessage := showFormMessage (formMessage p) (js ''Sending your message...'') (js ''info'')\<rparr>,
      Some (1500, formDataOf (formFields p)))"
proof -
  have "snd (validateRequired (formFields p) True)"
    using assms by (simp add: validateRequired_snd)
  then show ?thesis
    by (simp add: handleFormSubmit_def Let_def case_prod_unfold)
qed

lemma handleFormSubmit_invalid:
  assumes "\<exists>f \<in> set (formFields p). required f \<and> \<not> snd (validateField f)"
  shows "handleFormSubmit p =
     (p\<lparr>formFields := fst (validateRequired (formFields p) True),
        formMessage := showFormMessage (formMessage p)
          (js ''Please correct the errors in the form.'') (js ''error'')\<rparr>, None)"
proof -
  have "\<not> snd (validateRequired (formFields p) True)"
    using assms by (auto simp: validateRequired_snd)
  then show ?thesis
    by (simp add: handleFormSubmit_def Let_def case_prod_unfold)
qed

lemma submitTimeout_Some:
  assumes "formMessage q = Some mq"
  shows "submitTimeout d q =
     Inr (q\<lparr>console := console q @ [foldl (\<lambda>d (key, v). AList.update key v d) [] d],
            formMessage := Some (mq\<lparr>textContent := thankYou,
               className := [js ''form-message'', js ''success''],
               scrolledIntoView := Suc (scrolledIntoView mq)\<rparr>),
            formFields := map reset (formFields q)\<rparr>)"
  using assms by (simp add: submitTimeout_def Let_def showFormMessage_success)

lemma submitTimeout_None:
  assumes "formMessage q = None"
  shows "submitTimeout d q =
     Inl (TypeError, q\<lparr>console := console q @ [foldl (\<lambda>d (key, v). AList.update key v d) [] d],
            formMessage := None, formFields := map reset (formFields q)\<rparr>)"
  using assms by (simp add: submitTimeout_def Let_def showFormMessage_None)

lemma sample_fields:
  "snd (validateField (textField True (js ''text'') (js ''Ann'')))"
  "fst (validateField (textField True (js ''text'') (js ''Ann''))) = textField True (js ''text'') (js ''Ann'')"
  "\<not> snd (validateField (textField True (js ''text'') []))"
  "fst (validateField (textField True (js ''text'') [])) =
     (textField True (js ''text'') [])\<lparr>errorElement := Some (js ''This field is required'')\<rparr>"
  "required (textField True ty v)"
  by (simp_all add: validateField_def textField_def trim_def js_def isWhiteSpace_def)

lemma consistent_nth:
  "consistent qs \<longleftrightarrow> (\<forall>j < length qs. questionActive (qs ! j) = answerActive (qs ! j))"
  by (simp add: consistent_def list_all_length)

lemma length_faqClick [simp]: "length (faqClick i qs) = length qs"
  by (simp add: faqClick_def Let_def)

lemma faqClick_this:
  assumes "i < length qs"
  shows "faqClick i qs ! i = toggleAnswer ((qs ! i)\<lparr>questionActive := \<not> questionActive (qs ! i)\<rparr>)"
  using assms by (simp add: faqClick_def Let_def nth_enumerate_eq closeOther_def)

lemma faqClick_other:
  assumes "i < length qs" "j < length qs" "j \<noteq> i"
  shows "faqClick i qs ! j =
     (if questionActive (qs ! j)
      then (qs ! j)\<lparr>questionActive := False, answerActive := False, maxHeight := None\<rparr>
      else qs ! j)"
  using assms by (simp add: faqClick_def Let_def nth_enumerate_eq closeOther_def)

lemma faqClick_consistent:
  assumes "consistent qs"
  shows "consistent (faqClick i qs)"
proof (cases "i < length qs")
  case False
  with assms show ?thesis by (simp add: faqClick_def)
next
  case True
  show ?thesis
    unfolding consistent_nth
  proof (intro allI impI)
    fix j assume "j < length (faqClick i qs)"
    then have j: "j < length qs" by simp
    with assms have c: "questionActive (qs ! j) = answerActive (qs ! j)"
      by (simp add: consistent_nth)
    show "questionActive (faqClick i qs ! j) = answerActive (faqClick i qs ! j)"
    proof (cases "j = i")
      case True
      with \<open>i < length qs\<close> c show ?thesis
        by (simp add: faqClick_this toggleAnswer_def)
    next
      case False
      with \<open>i < length qs\<close> j c show ?thesis
        by (simp add: faqClick_other)
    qed
  qed
qed

lemma faqClick_others_closed:
  assumes "consistent qs" "i < length qs" "j < length qs" "j \<noteq> i"
  shows "\<not> expanded (faqClick i qs ! j)" "maxHeight (faqClick i qs ! j) = None \<or> \<not> questionActive (qs ! j)"
  using assms by (simp_all add: faqClick_other expanded_def consistent_nth)

lemma filter_le_one:
  "(\<forall>j < length xs. j \<noteq> i \<longrightarrow> \<not> P (xs ! j)) \<Longrightarrow> length (filter P xs) \<le> 1"
proof (induction xs arbitrary: i)
  case Nil
  then show ?case by simp
next
  case (Cons x xs)
  show ?case
  proof (cases i)
    case 0
    have "\<not> P y" if "y \<in> set xs" for y
    proof -
      from that obtain k where "k < length xs" "xs ! k = y"
        by (auto simp: in_set_conv_nth)
      with Cons.prems [rule_format, of "Suc k"] 0 show ?thesis by simp
    qed
    then have "filter P xs = []" by (simp add: filter_empty_conv)
    then show ?thesis by simp
  next
    case (Suc i')
    from Cons.prems [rule_format, of 0] Suc have "\<not> P x" by simp
    moreover have "\<forall>j < length xs. j \<noteq> i' \<longrightarrow> \<not> P (xs ! j)"
    proof (intro allI impI)
      fix j assume "j < length xs" "j \<noteq> i'"
      with Cons.prems [rule_format, of "Suc j"] Suc show "\<not> P (xs ! j)" by simp
    qed
    ultimately show ?thesis using Cons.IH [of i'] by simp
  qed
qed

lemma faqClick_openCount:
  assumes "consistent qs" "openCount qs \<le> 1"
  shows "openCount (faqClick i qs) \<le> 1"
proof (cases "i < length qs")
  case False
  with assms show ?thesis by (simp add: faqClick_def)
next
  case True
  have "\<forall>j < length (faqClick i qs). j \<noteq> i \<longrightarrow> \<not> expanded (faqClick i qs ! j)"
    using faqClick_others_closed(1) [OF assms(1) True] by simp
  then show ?thesis
    unfolding openCount_def by (rule filter_le_one)
qed

lemma faqClicks_invariant:
  assumes "consistent qs" "openCount qs \<le> 1"
  shows "consistent (faqClicks qs clicks) \<and> openCount (faqClicks qs clicks) \<le> 1"
  using assms
proof (induction clicks arbitrary: qs)
  case Nil
  then show ?case by (simp add: faqClicks_def)
next
  case (Cons i clicks)
  have "faqClicks qs (i # clicks) = faqClicks (faqClick i qs) clicks"
    by (simp add: faqClicks_def)
  moreover have "consistent (faqClick i qs)"
    using Cons.prems(1) by (rule faqClick_consistent)
  moreover have "openCount (faqClick i qs) \<le> 1"
    using Cons.prems by (rule faqClick_openCount)
  ultimately show ?case
    using Cons.IH [of "faqClick i qs"] by metis
qed

lemma length_handleScrollAnimations [simp]:
  "length (handleScrollAnimations w els) = length els"
  by (simp add: handleScrollAnimations_def)

lemma handleScrollAnimations_nth:
  "i < length els \<Longrightarrow> handleScrollAnimations w els ! i = revealOne w (i, els ! i)"
  by (simp add: handleScrollAnimations_def nth_enumerate_eq)

lemma revealOne_revealed: "revealed e \<Longrightarrow> revealed (revealOne w (i, e))"
  by (simp add: revealOne_def revealed_def Let_def)

lemma handleScrollAnimations_revealed:
  "i < length els \<Longrightarrow> revealed (els ! i) \<Longrightarrow> revealed (handleScrollAnimations w els ! i)"
  by (simp add: handleScrollAnimations_nth revealOne_revealed)

lemma length_step [simp]: "length (animatedElements (step s ev)) = length (animatedElements s)"
  by (cases ev) (simp_all add: initScrollAnimations_def Let_def)

lemma step_revealed:
  assumes "i < length (animatedElements s)" "revealed (animatedElements s ! i)"
  shows "revealed (animatedElements (step s ev) ! i)"
  using assms
  by (cases ev) (simp_all add: initScrollAnimations_def Let_def handleScrollAnimations_revealed)

lemma run_revealed:
  assumes "i < length (animatedElements s)" "revealed (animatedElements s ! i)"
  shows "i < length (animatedElements (run s evs)) \<and> revealed (animatedElements (run s evs) ! i)"
  using assms
proof (induction evs arbitrary: s)
  case Nil
  then show ?case by (simp add: run_def)
next
  case (Cons ev evs)
  have "run s (ev # evs) = run (step s ev) evs"
    by (simp add: run_def)
  moreover have "i < length (animatedElements (step s ev))"
    using Cons.prems(1) by simp
  moreover have "revealed (animatedElements (step s ev) ! i)"
    using Cons.prems by (rule step_revealed)
  ultimately show ?case
    using Cons.IH [of "step s ev"] by simp
qed

lemma style_literals:
  "js ''0'' \<noteq> js ''1''" "js ''translateY(20px)'' \<noteq> js ''translateY(0)''"
  "js ''none'' \<noteq> js ''block''" "js ''scale(0.8)'' \<noteq> js ''scale(1)''"
  by (simp_all add: js_def)

lemma loaded_in_view:
  "run (pageLoad [offsetElement]) [DOMContentLoaded desktopInView] =
     \<lparr>animatedElements = [\<lparr>animOpacity = js ''1'', animTransform = js ''translateY(0)''\<rparr>],
      scrollListener = True, scrollTimeout = False\<rparr>"
  by (simp add: run_def pageLoad_def initScrollAnimations_def desktopInView_def
      handleScrollAnimations_def revealOne_def offsetElement_def)

lemma length_fire [simp]: "length (fire its a) = length its"
  by (cases a) (simp_all add: fire_def)

lemma length_foldl_fire [simp]: "length (foldl fire its as) = length its"
  by (induction as arbitrary: its) simp_all

lemma fire_nth:
  assumes "i < length its"
  shows "fire its a ! i =
     (if a = Reveal i then (its ! i)\<lparr>opacity := js ''1'', transform := js ''scale(1)''\<rparr>
      else if a = Remove i then (its ! i)\<lparr>display := js ''none''\<rparr>
      else its ! i)"
  using assms by (cases a) (auto simp: fire_def nth_list_update)

lemma foldl_fire_nth:
  assumes "i < length its"
  shows "foldl fire its as ! i =
     (let x = its ! i;
          x1 = (if Reveal i \<in> set as then x\<lparr>opacity := js ''1'', transform := js ''scale(1)''\<rparr> else x)
      in if Remove i \<in> set as then x1\<lparr>display := js ''none''\<rparr> else x1)"
proof (induction as rule: rev_induct)
  case Nil
  then show ?case by simp
next
  case (snoc a as)
  have i: "i < length (foldl fire its as)"
    using assms by simp
  have "foldl fire its (as @ [a]) ! i = fire (foldl fire its as) a ! i"
    by simp
  also have "\<dots> = (let x = its ! i;
          x1 = (if Reveal i \<in> set (as @ [a]) then x\<lparr>opacity := js ''1'', transform := js ''scale(1)''\<rparr> else x)
      in if Remove i \<in> set (as @ [a]) then x1\<lparr>display := js ''none''\<rparr> else x1)"
    unfolding fire_nth [OF i] snoc.IH by (auto simp: Let_def)
  finally show ?case .
qed

lemma filterClick_items:
  assumes "b < length (filterButtons s)" "i < length (projectItems s)"
  shows "length (projectItems (filterClick b s)) = length (projectItems s)"
    and "projectItems (filterClick b s) ! i =
       fst (filterItem (data_filter (filterButtons s ! b)) (now s) (i, projectItems s ! i))"
    and "timers (filterClick b s) = timers s @
       map (\<lambda>ix. snd (filterItem (data_filter (filterButtons s ! b)) (now s) ix))
         (enumerate 0 (projectItems s))"
    and "now (filterClick b s) = now s"
proof -
  from assms(2) have "projectItems s \<noteq> []" by auto
  with assms show "length (projectItems (filterClick b s)) = length (projectItems s)"
    and "projectItems (filterClick b s) ! i =
       fst (filterItem (data_filter (filterButtons s ! b)) (now s) (i, projectItems s ! i))"
    and "timers (filterClick b s) = timers s @
       map (\<lambda>ix. snd (filterItem (data_filter (filterButtons s ! b)) (now s) ix))
         (enumerate 0 (projectItems s))"
    and "now (filterClick b s) = now s"
    by (simp_all add: filterClick_def Let_def nth_enumerate_eq)
qed

lemma filterItem_cases:
  "filterItem t n (i, item) =
     (if passes t item then (item\<lparr>display := js ''block''\<rparr>, (n + 10, Reveal i))
      else (item\<lparr>opacity := js ''0'', transform := js ''scale(0.8)''\<rparr>, (n + 300, Remove i)))"
  by (simp add: filterItem_def passes_def arrayIncludes_def Let_def)

lemma click_timers_set:
  assumes "i < length its"
  shows "Reveal i \<in> snd ` set (map (\<lambda>ix. snd (filterItem t n ix)) (enumerate 0 its)) \<longleftrightarrow> passes t (its ! i)"
    and "Remove i \<in> snd ` set (map (\<lambda>ix. snd (filterItem t n ix)) (enumerate 0 its)) \<longleftrightarrow> \<not> passes t (its ! i)"
proof -
  have *: "set (map (\<lambda>ix. snd (filterItem t n ix)) (enumerate 0 its)) =
      (\<lambda>j. snd (filterItem t n (j, its ! j))) ` {..<length its}"
    by (auto simp: in_set_enumerate_eq image_iff intro!: bexI)
  show "Reveal i \<in> snd ` set (map (\<lambda>ix. snd (filterItem t n ix)) (enumerate 0 its)) \<longleftrightarrow> passes t (its ! i)"
    unfolding * using assms by (auto simp: filterItem_cases image_iff split: if_splits)
  show "Remove i \<in> snd ` set (map (\<lambda>ix. snd (filterItem t n ix)) (enumerate 0 its)) \<longleftrightarrow> \<not> passes t (its ! i)"
    unfolding * using assms by (auto simp: filterItem_cases image_iff split: if_splits)
qed

lemma click_timers_due:
  assumes "300 \<le> ms"
  shows "filter (\<lambda>x. fst x \<le> n + ms) (map (\<lambda>ix. snd (filterItem t n ix)) (enumerate 0 its)) =
     map (\<lambda>ix. snd (filterItem t n ix)) (enumerate 0 its)"
    and "filter (\<lambda>x. \<not> fst x \<le> n + ms) (map (\<lambda>ix. snd (filterItem t n ix)) (enumerate 0 its)) = []"
proof -
  have *: "fst (snd (filterItem t n ix)) \<le> n + ms" for ix
    using assms by (cases ix) (simp add: filterItem_cases)
  show "filter (\<lambda>x. fst x \<le> n + ms) (map (\<lambda>ix. snd (filterItem t n ix)) (enumerate 0 its)) =
     map (\<lambda>ix. snd (filterItem t n ix)) (enumerate 0 its)"
    using * by (simp add: filter_id_conv)
  show "filter (\<lambda>x. \<not> fst x \<le> n + ms) (map (\<lambda>ix. snd (filterItem t n ix)) (enumerate 0 its)) = []"
    using * by (simp add: filter_empty_conv)
qed

lemma filter_settled:
  assumes "timers s = []" "b < length (filterButtons s)" "i < length (projectItems s)" "300 \<le> ms"
  shows "projectItems (elapse ms (filterClick b s)) ! i =
     (if passes (data_filter (filterButtons s ! b)) (projectItems s ! i)
      then (projectItems s ! i)\<lparr>display := js ''block'', opacity := js ''1'', transform := js ''scale(1)''\<rparr>
      else (projectItems s ! i)\<lparr>display := js ''none'', opacity := js ''0'', transform := js ''scale(0.8)''\<rparr>)"
    and "length (projectItems (elapse ms (filterClick b s))) = length (projectItems s)"
    and "timers (elapse ms (filterClick b s)) = []"
proof -
  let ?t = "data_filter (filterButtons s ! b)"
  let ?ts = "map (\<lambda>ix. snd (filterItem ?t (now s) ix)) (enumerate 0 (projectItems s))"
  note c = filterClick_items [OF assms(2,3)]
  have ts: "timers (filterClick b s) = ?ts"
    using c(3) assms(1) by simp
  have due: "filter (\<lambda>x. fst x \<le> now s + ms) ?ts = ?ts"
    using assms(4) by (rule click_timers_due)
  have later: "filter (\<lambda>x. \<not> fst x \<le> now s + ms) ?ts = []"
    using assms(4) by (rule click_timers_due)
  have items: "projectItems (elapse ms (filterClick b s)) =
      foldl fire (projectItems (filterClick b s)) (map snd (sort_key fst ?ts))"
    by (simp add: elapse_def Let_def ts c(4) due)
  have set: "set (map snd (sort_key fst ?ts)) = snd ` set ?ts"
    by simp
  have i': "i < length (projectItems (filterClick b s))"
    using c(1) assms(3) by simp
  show "projectItems (elapse ms (filterClick b s)) ! i =
     (if passes ?t (projectItems s ! i)
      then (projectItems s ! i)\<lparr>display := js ''block'', opacity := js ''1'', transform := js ''scale(1)''\<rparr>
      else (projectItems s ! i)\<lparr>display := js ''none'', opacity := js ''0'', transform := js ''scale(0.8)''\<rparr>)"
    unfolding items foldl_fire_nth [OF i'] set click_timers_set [OF assms(3)] c(2)
    by (simp add: filterItem_cases Let_def)
  show "length (projectItems (elapse ms (filterClick b s))) = length (projectItems s)"
    unfolding items using c(1) by simp
  show "timers (elapse ms (filterClick b s)) = []"
    by (simp add: elapse_def Let_def ts c(4) later)
qed

lemma category_literals:
  "js ''commercial'' \<noteq> js ''all''"
  "split (of_char CHR '' '') (js ''residential'') = [js ''residential'']"
  "split 32 (js ''residential'') = [js ''residential'']"
  "js ''commercial'' \<noteq> js ''residential''"
  by (simp_all add: js_def)

lemma sample_passes:
  "passes (js ''all'') item"
  "\<not> passes (js ''commercial'') (plainItem (js ''residential''))"
  by (simp_all add: passes_def plainItem_def category_literals)

lemma race_steps:
  "filterClick 1 filterStart =
     \<lparr>filterButtons = [\<lparr>data_filter = js ''all'', active = False\<rparr>,
                       \<lparr>data_filter = js ''commercial'', active = True\<rparr>],
      projectItems = [\<lparr>data_category = js ''residential'', display = [],
                       opacity = js ''0'', transform = js ''scale(0.8)''\<rparr>],
      now = 0, timers = [(300, Remove 0)]\<rparr>"
  "elapse 100 \<lparr>filterButtons = bs, projectItems = its, now = 0, timers = [(300, Remove 0)]\<rparr> =
     \<lparr>filterButtons = bs, projectItems = its, now = 100, timers = [(300, Remove 0)]\<rparr>"
  "filterClick 0
     \<lparr>filterButtons = [\<lparr>data_filter = js ''all'', active = False\<rparr>,
                       \<lparr>data_filter = js ''commercial'', active = True\<rparr>],
      projectItems = [\<lparr>data_category = js ''residential'', display = [],
                       opacity = js ''0'', transform = js ''scale(0.8)''\<rparr>],
      now = 100, timers = [(300, Remove 0)]\<rparr> =
     \<lparr>filterButtons = [\<lparr>data_filter = js ''all'', active = True\<rparr>,
                       \<lparr>data_filter = js ''commercial'', active = False\<rparr>],
      projectItems = [\<lparr>data_category = js ''residential'', display = js ''block'',
                       opacity = js ''0'', transform = js ''scale(0.8)''\<rparr>],
      now = 100, timers = [(300, Remove 0), (110, Reveal 0)]\<rparr>"
  "elapse 300 \<lparr>filterButtons = bs,
      projectItems = [\<lparr>data_category = js ''residential'', display = js ''block'',
                       opacity = js ''0'', transform = js ''scale(0.8)''\<rparr>],
      now = 100, timers = [(300, Remove 0), (110, Reveal 0)]\<rparr> =
     \<lparr>filterButtons = bs,
      projectItems = [\<lparr>data_category = js ''residential'', display = js ''none'',
                       opacity = js ''1'', transform = js ''scale(1)''\<rparr>],
      now = 400, timers = []\<rparr>"
  by (simp_all add: filterClick_def filterStart_def twoButtons_def plainItem_def filterItem_def
      arrayIncludes_def category_literals elapse_def fire_def Let_def)

section \<open>Field validation: the email pattern\<close>




section \<open>Field validation: the phone pattern\<close>

text \<open>
  Claim C8, as the specification words it: a non-empty value of a phone field is valid if
  and only if it has 10 to 15 characters, each a digit, the space character or one of
  \<^verbatim>\<open>- + ( )\<close>. The eleven characters \<^verbatim>\<open>12345\<close>, a tab, \<^verbatim>\<open>67890\<close> are not of that
  kind, and \<open>validateField\<close> accepts them: the class \<^verbatim>\<open>\s\<close> of the pattern holds every
  whitespace character.
\<close>

theorem phone_pattern_counterexample:
  "ftype (textField False (js ''tel'') tabbedNumber) = js ''tel''
   \<and> fvalue (textField False (js ''tel'') tabbedNumber) \<noteq> []
   \<and> \<not> spec_phone_pattern (fvalue (textField False (js ''tel'') tabbedNumber))
   \<and> snd (validateField (textField False (js ''tel'') tabbedNumber))"
proof -
  have "\<not> spec_phone_pattern tabbedNumber"
    by (simp add: spec_phone_pattern_def spec_phone_char_def tabbedNumber_def js_def isDigit_def)
  moreover have "snd (validateField (textField False (js ''tel'') tabbedNumber))"
    by (simp add: validateField_valid_iff textField_def trim_literals phone_literals email_neq_tel [symmetric])
  moreover have "tabbedNumber \<noteq> []"
    by (simp add: tabbedNumber_def)
  ultimately show ?thesis
    by (simp add: textField_def)
qed

text \<open>
  Claim C8, amended: for a phone field whose trimmed value is not empty, \<open>validateField\<close>
  judges it valid if and only if the trimmed value has 10 to 15 characters, each a digit,
  a whitespace character or one of \<^verbatim>\<open>- + ( )\<close>; \<^verbatim>\<open>+91 98765 43210\<close>, of 15
  characters, is valid and \<^verbatim>\<open>12345\<close> is invalid.
\<close>

theorem validateField_phone:
  "(ftype f = js ''tel'' \<and> trim (fvalue f) \<noteq> [] \<longrightarrow>
      (snd (validateField f) \<longleftrightarrow>
         10 \<le> length (trim (fvalue f)) \<and> length (trim (fvalue f)) \<le> 15
         \<and> (\<forall>c \<in> set (trim (fvalue f)). phoneChar c)))
   \<and> length (js ''+91 98765 43210'') = 15
   \<and> (ftype f = js ''tel'' \<and> fvalue f = js ''+91 98765 43210'' \<longrightarrow> snd (validateField f))
   \<and> (ftype f = js ''tel'' \<and> fvalue f = js ''12345'' \<longrightarrow> \<not> snd (validateField f))"
proof (intro conjI impI)
  assume "ftype f = js ''tel'' \<and> trim (fvalue f) \<noteq> []"
  then show "snd (validateField f) \<longleftrightarrow>
         10 \<le> length (trim (fvalue f)) \<and> length (trim (fvalue f)) \<le> 15
         \<and> (\<forall>c \<in> set (trim (fvalue f)). phoneChar c)"
    by (simp add: validateField_valid_iff phoneRegex_iff email_neq_tel [symmetric])
next
  show "length (js ''+91 98765 43210'') = 15"
    by (simp add: js_def)
next
  assume "ftype f = js ''tel'' \<and> fvalue f = js ''+91 98765 43210''"
  then show "snd (validateField f)"
    by (simp add: validateField_valid_iff trim_literals phone_literals email_neq_tel [symmetric])
next
  assume "ftype f = js ''tel'' \<and> fvalue f = js ''12345''"
  then show "\<not> snd (validateField f)"
    by (simp add: validateField_valid_iff trim_literals phone_literals email_neq_tel [symmetric])
qed

text \<open>The amended claim C8 at a required phone field holding each of the two numbers.\<close>

theorem validateField_phone_witness:
  "ftype (textField True (js ''tel'') (js ''+91 98765 43210'')) = js ''tel''
   \<and> trim (fvalue (textField True (js ''tel'') (js ''+91 98765 43210''))) \<noteq> []
   \<and> list_all phoneChar (js ''+91 98765 43210'')
   \<and> ftype (textField True (js ''tel'') (js ''12345'')) = js ''tel''
   \<and> \<not> snd (validateField (textField True (js ''tel'') (js ''12345'')))"
proof -
  have 1: "ftype (textField True (js ''tel'') (js ''+91 98765 43210'')) = js ''tel''
      \<and> fvalue (textField True (js ''tel'') (js ''+91 98765 43210'')) = js ''+91 98765 43210''"
    and 2: "ftype (textField True (js ''tel'') (js ''12345'')) = js ''tel''
      \<and> fvalue (textField True (js ''tel'') (js ''12345'')) = js ''12345''"
    by (simp_all add: textField_def)
  have 3: "trim (fvalue (textField True (js ''tel'') (js ''+91 98765 43210''))) \<noteq> []"
    using 1 by (simp add: trim_literals)
  from validateField_phone [of "textField True (js ''tel'') (js ''+91 98765 43210'')"] 1 3
  have "\<forall>c \<in> set (trim (fvalue (textField True (js ''tel'') (js ''+91 98765 43210'')))). phoneChar c"
    by blast
  then have 4: "list_all phoneChar (js ''+91 98765 43210'')"
    using 1 by (simp add: trim_literals list_all_iff)
  from validateField_phone [of "textField True (js ''tel'') (js ''12345'')"] 2
  have 5: "\<not> snd (validateField (textField True (js ''tel'') (js ''12345'')))"
    by blast
  from 1 2 3 4 5 show ?thesis by blast
qed

section \<open>Field validation: the message on display\<close>

text \<open>
  Claim C6 says that after \<open>validateField\<close> the message on display is empty if and only
  if the field is valid, and that an empty field that is not required is left with no
  message. An optional email field holding \<^verbatim>\<open>abc\<close> is given the message of the email
  branch. Once its value is deleted, \<open>validateField\<close> returns \<open>True\<close> at its first test,
  before the statements that write the error text, and the message stays on display.
\<close>

theorem validateField_stale_message:
  "validateField (textField False (js ''email'') (js ''abc'')) =
     ((textField False (js ''email'') (js ''abc''))
        \<lparr>errorElement := Some (js ''Please enter a valid email address'')\<rparr>, False)
   \<and> validateField ((textField False (js ''email'') (js ''abc''))
        \<lparr>errorElement := Some (js ''Please enter a valid email address''), fvalue := []\<rparr>) =
     ((textField False (js ''email'') (js ''abc''))
        \<lparr>errorElement := Some (js ''Please enter a valid email address''), fvalue := []\<rparr>, True)
   \<and> js ''Please enter a valid email address'' \<noteq> []"
proof -
  have "validateField (textField False (js ''email'') (js ''abc'')) =
     ((textField False (js ''email'') (js ''abc''))
        \<lparr>errorElement := Some (js ''Please enter a valid email address'')\<rparr>, False)"
    by (simp add: validateField_def textField_def trim_literals email_literals)
  moreover have "validateField ((textField False (js ''email'') (js ''abc''))
        \<lparr>errorElement := Some (js ''Please enter a valid email address''), fvalue := []\<rparr>) =
     ((textField False (js ''email'') (js ''abc''))
        \<lparr>errorElement := Some (js ''Please enter a valid email address''), fvalue := []\<rparr>, True)"
    by (simp add: validateField_def textField_def trim_def)
  ultimately show ?thesis by simp
qed

section \<open>Submission of a valid form\<close>

text \<open>
  Claim C1, as the specification words it: every submission whose required fields all
  validate displays the sending message and, 1500 ms later, the thank-you message. On a
  page with no message region \<open>showFormMessage\<close> returns at its first line: the timer is
  set, nothing is displayed and the page never shows the sending state.
\<close>

theorem submit_valid_counterexample:
  "required (textField True (js ''text'') (js ''Ann''))
   \<and> snd (validateField (textField True (js ''text'') (js ''Ann'')))
   \<and> formFields (validPage None) = [textField True (js ''text'') (js ''Ann'')]
   \<and> snd (handleFormSubmit (validPage None)) = Some (1500, [(js ''f'', js ''Ann'')])
   \<and> formMessage (fst (handleFormSubmit (validPage None))) = None
   \<and> spec_state (fst (handleFormSubmit (validPage None))) \<noteq> Sending"
proof -
  have "\<forall>f \<in> set (formFields (validPage None)). required f \<longrightarrow> snd (validateField f)"
    by (simp add: validPage_def sample_fields)
  from handleFormSubmit_valid [OF this]
  have "handleFormSubmit (validPage None) =
     ((validPage None)\<lparr>formFields := fst (validateRequired (formFields (validPage None)) True),
        formMessage := None\<rparr>, Some (1500, formDataOf (formFields (validPage None))))"
    by (simp add: showFormMessage_None validPage_def)
  moreover have "formDataOf (formFields (validPage None)) = [(js ''f'', js ''Ann'')]"
    by (simp add: formDataOf_def validPage_def textField_def)
  ultimately show ?thesis
    by (simp add: sample_fields spec_state_def validPage_def)
qed

text \<open>
  Claim C1, amended: when every required field validates and the page has a message
  region, \<open>handleFormSubmit\<close> writes \<^verbatim>\<open>Sending your message...\<close> to the region (state
  Sending), changes no value and sets one timer of 1500 ms; when the timer fires, on the
  page as it then is, the callback writes the thank-you message with the class
  \<^verbatim>\<open>success\<close> (state Success), resets every control to its default value and scrolls
  the region into view.
\<close>

theorem submit_valid:
  assumes "\<forall>f \<in> set (formFields p). required f \<longrightarrow> snd (validateField f)"
    and "formMessage p = Some m"
  shows "\<exists>p1 d m1.
     handleFormSubmit p = (p1, Some (1500, d))
     \<and> formMessage p1 = Some m1
     \<and> textContent m1 = js ''Sending your message...''
     \<and> spec_state p1 = Sending
     \<and> map fvalue (formFields p1) = map fvalue (formFields p)
     \<and> (\<forall>q mq. formMessage q = Some mq \<longrightarrow>
          (\<exists>q' m'. submitTimeout d q = Inr q'
             \<and> formMessage q' = Some m'
             \<and> textContent m' = thankYou
             \<and> className m' = [js ''form-message'', js ''success'']
             \<and> spec_state q' = Success
             \<and> formFields q' = map reset (formFields q)
             \<and> (\<forall>f \<in> set (formFields q'). fvalue f = defaultValue f)
             \<and> scrolledIntoView m' = Suc (scrolledIntoView mq)))"
proof -
  let ?m1 = "m\<lparr>textContent := js ''Sending your message...'', className := [js ''form-message''],
             backgroundColor := js ''rgba(33, 33, 33, 0.1)'', color := js ''#212121'',
             border := js ''1px solid #212121''\<rparr>"
  let ?p1 = "p\<lparr>formFields := fst (validateRequired (formFields p) True), formMessage := Some ?m1\<rparr>"
  let ?d = "formDataOf (formFields p)"
  have 1: "handleFormSubmit p = (?p1, Some (1500, ?d))"
    using handleFormSubmit_valid [OF assms(1)] assms(2) by (simp add: showFormMessage_info)
  have 2: "spec_state ?p1 = Sending"
    by (simp add: spec_state_def)
  have 3: "map fvalue (formFields ?p1) = map fvalue (formFields p)"
    by (simp add: validateRequired_fvalue)
  have 4: "\<exists>q' m'. submitTimeout ?d q = Inr q'
             \<and> formMessage q' = Some m'
             \<and> textContent m' = thankYou
             \<and> className m' = [js ''form-message'', js ''success'']
             \<and> spec_state q' = Success
             \<and> formFields q' = map reset (formFields q)
             \<and> (\<forall>f \<in> set (formFields q'). fvalue f = defaultValue f)
             \<and> scrolledIntoView m' = Suc (scrolledIntoView mq)"
    if "formMessage q = Some mq" for q mq
    using submitTimeout_Some [OF that, of ?d]
    by (auto simp: spec_state_def message_literals reset_def)
  from 1 2 3 4 show ?thesis
    by (intro exI [of _ ?p1] exI [of _ ?d] exI [of _ ?m1]) simp
qed

text \<open>The amended claim C1 on a page with one required field holding \<^verbatim>\<open>Ann\<close> and a message region.\<close>

theorem submit_valid_witness:
  "formFields (validPage (Some emptyMessage)) = [textField True (js ''text'') (js ''Ann'')]
   \<and> required (textField True (js ''text'') (js ''Ann''))
   \<and> snd (validateField (textField True (js ''text'') (js ''Ann'')))
   \<and> formMessage (validPage (Some emptyMessage)) = Some emptyMessage
   \<and> (\<exists>p1 d. handleFormSubmit (validPage (Some emptyMessage)) = (p1, Some (1500, d))
         \<and> spec_state p1 = Sending
         \<and> (\<exists>q'. submitTimeout d p1 = Inr q' \<and> spec_state q' = Success
               \<and> (\<forall>f \<in> set (formFields q'). fvalue f = defaultValue f)))"
proof -
  have 1: "\<forall>f \<in> set (formFields (validPage (Some emptyMessage))). required f \<longrightarrow> snd (validateField f)"
    by (simp add: validPage_def sample_fields)
  have 2: "formMessage (validPage (Some emptyMessage)) = Some emptyMessage"
    by (simp add: validPage_def)
  have 3: "formFields (validPage (Some emptyMessage)) = [textField True (js ''text'') (js ''Ann'')]
      \<and> required (textField True (js ''text'') (js ''Ann''))
      \<and> snd (validateField (textField True (js ''text'') (js ''Ann'')))"
    by (simp add: validPage_def sample_fields)
  from submit_valid [OF 1 2]
  have "\<exists>p1 d. handleFormSubmit (validPage (Some emptyMessage)) = (p1, Some (1500, d))
         \<and> spec_state p1 = Sending
         \<and> (\<exists>q'. submitTimeout d p1 = Inr q' \<and> spec_state q' = Success
               \<and> (\<forall>f \<in> set (formFields q'). fvalue f = defaultValue f))"
    by (elim exE conjE) blast
  with 2 3 show ?thesis by blast
qed

section \<open>Submission of an invalid form\<close>

text \<open>
  Claim C2, as the specification words it: every submission with a required field that
  fails validation displays \<^verbatim>\<open>Please correct the errors in the form.\<close> On a page with no
  message region nothing is displayed and the page does not show the error state.
\<close>

theorem submit_invalid_counterexample:
  "required (textField True (js ''text'') [])
   \<and> \<not> snd (validateField (textField True (js ''text'') []))
   \<and> formFields (invalidPage None) = [textField True (js ''text'') []]
   \<and> snd (handleFormSubmit (invalidPage None)) = None
   \<and> formMessage (fst (handleFormSubmit (invalidPage None))) = None
   \<and> spec_state (fst (handleFormSubmit (invalidPage None))) \<noteq> Error"
proof -
  have "\<exists>f \<in> set (formFields (invalidPage None)). required f \<and> \<not> snd (validateField f)"
    by (simp add: invalidPage_def sample_fields)
  from handleFormSubmit_invalid [OF this]
  have "handleFormSubmit (invalidPage None) =
     ((invalidPage None)\<lparr>formFields := fst (validateRequired (formFields (invalidPage None)) True),
        formMessage := None\<rparr>, None)"
    by (simp add: showFormMessage_None invalidPage_def)
  then show ?thesis
    by (simp add: sample_fields spec_state_def invalidPage_def)
qed

text \<open>
  Claim C2, amended: when a required field fails validation, \<open>handleFormSubmit\<close> sets no
  timer, changes no value and never shows the sending state; when the page has a message
  region it writes \<^verbatim>\<open>Please correct the errors in the form.\<close> to it with the class
  \<^verbatim>\<open>error\<close> (state Error), and when the page has none it displays nothing.
\<close>

theorem submit_invalid:
  assumes "\<exists>f \<in> set (formFields p). required f \<and> \<not> snd (validateField f)"
  shows "\<exists>p1.
     handleFormSubmit p = (p1, None)
     \<and> map fvalue (formFields p1) = map fvalue (formFields p)
     \<and> spec_state p1 \<noteq> Sending
     \<and> (formMessage p = None \<longrightarrow> formMessage p1 = None)
     \<and> (\<forall>m. formMessage p = Some m \<longrightarrow>
          (\<exists>m1. formMessage p1 = Some m1
             \<and> textContent m1 = js ''Please correct the errors in the form.''
             \<and> className m1 = [js ''form-message'', js ''error'']
             \<and> spec_state p1 = Error))"
proof -
  let ?p1 = "p\<lparr>formFields := fst (validateRequired (formFields p) True),
        formMessage := showFormMessage (formMessage p)
          (js ''Please correct the errors in the form.'') (js ''error'')\<rparr>"
  have 1: "handleFormSubmit p = (?p1, None)"
    by (rule handleFormSubmit_invalid [OF assms])
  have 2: "map fvalue (formFields ?p1) = map fvalue (formFields p)"
    by (simp add: validateRequired_fvalue)
  have 3: "spec_state ?p1 \<noteq> Sending"
    by (cases "formMessage p")
      (simp_all add: spec_state_def showFormMessage_None showFormMessage_error message_literals)
  have 4: "formMessage p = None \<longrightarrow> formMessage ?p1 = None"
    by (simp add: showFormMessage_None)
  have 5: "\<exists>m1. formMessage ?p1 = Some m1
             \<and> textContent m1 = js ''Please correct the errors in the form.''
             \<and> className m1 = [js ''form-message'', js ''error'']
             \<and> spec_state ?p1 = Error"
    if "formMessage p = Some m" for m
    using that by (simp add: spec_state_def showFormMessage_error message_literals)
  from 1 2 3 4 5 show ?thesis
    by (intro exI [of _ ?p1]) blast
qed

text \<open>The amended claim C2 on a page with one empty required field and a message region.\<close>

theorem submit_invalid_witness:
  "formFields (invalidPage (Some emptyMessage)) = [textField True (js ''text'') []]
   \<and> required (textField True (js ''text'') [])
   \<and> \<not> snd (validateField (textField True (js ''text'') []))
   \<and> (\<exists>p1. handleFormSubmit (invalidPage (Some emptyMessage)) = (p1, None)
         \<and> spec_state p1 = Error
         \<and> map fvalue (formFields p1) = map fvalue (formFields (invalidPage (Some emptyMessage))))"
proof -
  have 1: "\<exists>f \<in> set (formFields (invalidPage (Some emptyMessage))). required f \<and> \<not> snd (validateField f)"
    by (simp add: invalidPage_def sample_fields)
  have 2: "formMessage (invalidPage (Some emptyMessage)) = Some emptyMessage"
    by (simp add: invalidPage_def)
  from submit_invalid [OF 1] 2 obtain p1 where
    "handleFormSubmit (invalidPage (Some emptyMessage)) = (p1, None)"
    "spec_state p1 = Error"
    "map fvalue (formFields p1) = map fvalue (formFields (invalidPage (Some emptyMessage)))"
    by auto
  moreover have "formFields (invalidPage (Some emptyMessage)) = [textField True (js ''text'') []]
      \<and> required (textField True (js ''text'') [])
      \<and> \<not> snd (validateField (textField True (js ''text'') []))"
    by (simp add: invalidPage_def sample_fields)
  ultimately show ?thesis by blast
qed

section \<open>The submission path without a message region\<close>

text \<open>
  Claim C4 says that neither \<open>validateField\<close> nor the submission handler ever throws, the
  step after the delay included, when a display target is absent. On a page with one valid
  required field and no message region the handler sets its timer, and the callback of the
  timer logs the data, resets the form and then ends in a \<open>TypeError\<close>: it calls
  \<^verbatim>\<open>formMessage.scrollIntoView\<close> without the test that \<open>showFormMessage\<close> makes.
\<close>

theorem submitTimeout_throws:
  "handleFormSubmit (validPage None) = (validPage None, Some (1500, [(js ''f'', js ''Ann'')]))
   \<and> submitTimeout [(js ''f'', js ''Ann'')] (validPage None) =
       Inl (TypeError,
            \<lparr>formFields = [textField True (js ''text'') []], formMessage = None,
             console = [[(js ''f'', js ''Ann'')]]\<rparr>)"
proof -
  have "\<forall>f \<in> set (formFields (validPage None)). required f \<longrightarrow> snd (validateField f)"
    by (simp add: validPage_def sample_fields)
  from handleFormSubmit_valid [OF this]
  have "handleFormSubmit (validPage None) =
     ((validPage None)\<lparr>formFields := fst (validateRequired (formFields (validPage None)) True),
        formMessage := None\<rparr>, Some (1500, formDataOf (formFields (validPage None))))"
    by (simp add: showFormMessage_None validPage_def)
  moreover have "formDataOf (formFields (validPage None)) = [(js ''f'', js ''Ann'')]"
    by (simp add: formDataOf_def validPage_def textField_def)
  moreover have "fst (validateRequired (formFields (validPage None)) True) = formFields (validPage None)"
    by (simp add: validPage_def sample_fields case_prod_unfold)
  ultimately have 1: "handleFormSubmit (validPage None) = (validPage None, Some (1500, [(js ''f'', js ''Ann'')]))"
    by (simp add: validPage_def)
  have "formMessage (validPage None) = None"
    by (simp add: validPage_def)
  from submitTimeout_None [OF this, of "[(js ''f'', js ''Ann'')]"]
  have 2: "submitTimeout [(js ''f'', js ''Ann'')] (validPage None) =
       Inl (TypeError,
            \<lparr>formFields = [textField True (js ''text'') []], formMessage = None,
             console = [[(js ''f'', js ''Ann'')]]\<rparr>)"
    by (simp add: validPage_def reset_def textField_def)
  from 1 2 show ?thesis by simp
qed

section \<open>Project filter\<close>

text \<open>
  Claim C9, as the specification words it: after a filter with tag \<open>t\<close> is applied, an
  item is shown if and only if \<open>t\<close> is \<^verbatim>\<open>all\<close> or its categories contain \<open>t\<close>. A click
  on \<^verbatim>\<open>commercial\<close> hides a \<^verbatim>\<open>residential\<close> item and sets the timer that removes it
  from the layout; a click on \<^verbatim>\<open>all\<close> 100 ms later sets its display to \<^verbatim>\<open>block\<close>; the
  first timer is not cancelled and fires 200 ms after that. With the filter \<^verbatim>\<open>all\<close>
  applied and no timer left, the item has display \<^verbatim>\<open>none\<close>.
\<close>

theorem filter_race_counterexample:
  "timers filterStart = []
   \<and> data_filter (filterButtons filterStart ! 0) = js ''all''
   \<and> timers (elapse 300 (filterClick 0 (elapse 100 (filterClick 1 filterStart)))) = []
   \<and> display (projectItems (elapse 300 (filterClick 0 (elapse 100 (filterClick 1 filterStart)))) ! 0)
        = js ''none''
   \<and> \<not> shown (projectItems (elapse 300 (filterClick 0 (elapse 100 (filterClick 1 filterStart)))) ! 0)"
  unfolding race_steps
  by (simp add: shown_def style_literals filterStart_def twoButtons_def)

text \<open>
  Claim C9, amended: when no timer of an earlier click is pending at the click on a
  button with tag \<open>t\<close>, and 300 ms or more then pass with no other click, every item is
  shown (display \<^verbatim>\<open>block\<close>, opacity 1, full scale) if and only if \<open>t\<close> is \<^verbatim>\<open>all\<close> or
  \<open>t\<close> is among the pieces of its \<^verbatim>\<open>data-category\<close> split at spaces, and every other
  item is hidden (display \<^verbatim>\<open>none\<close>, opacity 0, scale 0.8); no timer is left.
\<close>

theorem filter_shows_matching:
  assumes "timers s = []" and "b < length (filterButtons s)"
    and "i < length (projectItems s)" and "300 \<le> ms"
  shows "(shown (projectItems (elapse ms (filterClick b s)) ! i) \<longleftrightarrow>
            data_filter (filterButtons s ! b) = js ''all''
            \<or> data_filter (filterButtons s ! b)
                 \<in> set (split (of_char CHR '' '') (data_category (projectItems s ! i))))
     \<and> (\<not> shown (projectItems (elapse ms (filterClick b s)) ! i) \<longrightarrow>
            hidden (projectItems (elapse ms (filterClick b s)) ! i))
     \<and> length (projectItems (elapse ms (filterClick b s))) = length (projectItems s)
     \<and> data_category (projectItems (elapse ms (filterClick b s)) ! i)
          = data_category (projectItems s ! i)
     \<and> timers (elapse ms (filterClick b s)) = []"
  unfolding filter_settled [OF assms]
  by (simp add: shown_def hidden_def passes_def style_literals)

text \<open>
  The amended claim C9 on one \<^verbatim>\<open>residential\<close> item, under the buttons \<^verbatim>\<open>commercial\<close>
  and \<^verbatim>\<open>all\<close>.
\<close>

theorem filter_shows_matching_witness:
  "timers filterStart = [] \<and> (1::nat) < length (filterButtons filterStart)
   \<and> (0::nat) < length (projectItems filterStart) \<and> (300::nat) \<le> 300
   \<and> data_filter (filterButtons filterStart ! 1) = js ''commercial''
   \<and> hidden (projectItems (elapse 300 (filterClick 1 filterStart)) ! 0)
   \<and> data_filter (filterButtons filterStart ! 0) = js ''all''
   \<and> shown (projectItems (elapse 300 (filterClick 0 filterStart)) ! 0)"
proof -
  have 1: "timers filterStart = []" and 2: "(1::nat) < length (filterButtons filterStart)"
    and 3: "(0::nat) < length (projectItems filterStart)" and 4: "(300::nat) \<le> 300"
    and 5: "(0::nat) < length (filterButtons filterStart)"
    by (simp_all add: filterStart_def twoButtons_def)
  have 6: "data_filter (filterButtons filterStart ! 1) = js ''commercial''"
    and 7: "data_filter (filterButtons filterStart ! 0) = js ''all''"
    and 8: "projectItems filterStart ! 0 = plainItem (js ''residential'')"
    by (simp_all add: filterStart_def twoButtons_def)
  have 9: "split (of_char CHR '' '') (data_category (plainItem (js ''residential''))) = [js ''residential'']"
    by (simp add: plainItem_def category_literals)
  from filter_shows_matching [OF 1 2 3 4]
  have "hidden (projectItems (elapse 300 (filterClick 1 filterStart)) ! 0)"
    unfolding 6 8 9 by (simp add: category_literals)
  moreover from filter_shows_matching [OF 1 5 3 4]
  have "shown (projectItems (elapse 300 (filterClick 0 filterStart)) ! 0)"
    unfolding 7 by simp
  ultimately show ?thesis
    using 1 2 3 6 7 by simp
qed

section \<open>FAQ accordion\<close>

text \<open>
  Claim C7, as the specification words it: no sequence of clicks ever leaves two answers
  expanded. The handler closes another answer only when its question has the class
  \<^verbatim>\<open>active\<close>. On a page whose first answer is expanded while its question is not
  active, and whose second pair is closed, one answer is expanded; after one click on the
  second question both are.
\<close>

theorem faq_two_expanded_counterexample:
  "openCount [orphanPair, closedPair] = 1
   \<and> openCount (faqClicks [orphanPair, closedPair] [1]) = 2
   \<and> expanded (faqClick 1 [orphanPair, closedPair] ! 0)
   \<and> expanded (faqClick 1 [orphanPair, closedPair] ! 1)"
  by (simp add: openCount_def faqClicks_def faqClick_def closeOther_def toggleAnswer_def
      expanded_def orphanPair_def closedPair_def Let_def)

text \<open>
  Claim C7, amended: on a page where each question is active exactly when its answer is
  (\<open>consistent\<close>) and at most one answer is expanded, no sequence of clicks leaves two
  expanded; on a consistent page a click on question \<open>b\<close> while the answer of \<open>a\<close> is
  expanded collapses \<open>a\<close> and expands \<open>b\<close> to its natural height; on any page a click on
  a question whose answer is expanded collapses it.
\<close>

theorem faq_at_most_one_expanded:
  "(consistent qs \<and> openCount qs \<le> 1 \<longrightarrow> openCount (faqClicks qs clicks) \<le> 1)
   \<and> (consistent qs \<and> a < length qs \<and> b < length qs \<and> a \<noteq> b
        \<and> expanded (qs ! a) \<and> \<not> expanded (qs ! b) \<longrightarrow>
          \<not> expanded (faqClick b qs ! a) \<and> maxHeight (faqClick b qs ! a) = None
          \<and> expanded (faqClick b qs ! b)
          \<and> maxHeight (faqClick b qs ! b) = Some (scrollHeight (qs ! b)))
   \<and> (b < length qs \<and> expanded (qs ! b) \<longrightarrow>
          \<not> expanded (faqClick b qs ! b) \<and> maxHeight (faqClick b qs ! b) = None)"
proof (intro conjI impI)
  assume "consistent qs \<and> openCount qs \<le> 1"
  then show "openCount (faqClicks qs clicks) \<le> 1"
    using faqClicks_invariant by blast
next
  assume h: "consistent qs \<and> a < length qs \<and> b < length qs \<and> a \<noteq> b
        \<and> expanded (qs ! a) \<and> \<not> expanded (qs ! b)"
  then have "questionActive (qs ! a)"
    by (simp add: consistent_nth expanded_def)
  with h show "\<not> expanded (faqClick b qs ! a)" "maxHeight (faqClick b qs ! a) = None"
    by (simp_all add: faqClick_other expanded_def)
  from h show "expanded (faqClick b qs ! b)"
    "maxHeight (faqClick b qs ! b) = Some (scrollHeight (qs ! b))"
    by (simp_all add: faqClick_this toggleAnswer_def expanded_def)
next
  assume "b < length qs \<and> expanded (qs ! b)"
  then show "\<not> expanded (faqClick b qs ! b)" "maxHeight (faqClick b qs ! b) = None"
    by (simp_all add: faqClick_this toggleAnswer_def expanded_def)
qed

text \<open>
  The amended claim C7 on two pairs, the first expanded, under four clicks and under
  single clicks.
\<close>

theorem faq_at_most_one_expanded_witness:
  "consistent [openPair, closedPair] \<and> openCount [openPair, closedPair] \<le> 1
   \<and> (0::nat) < length [openPair, closedPair] \<and> (1::nat) < length [openPair, closedPair]
   \<and> expanded ([openPair, closedPair] ! 0) \<and> \<not> expanded ([openPair, closedPair] ! 1)
   \<and> openCount (faqClicks [openPair, closedPair] [1, 1, 0, 1]) \<le> 1
   \<and> \<not> expanded (faqClick 1 [openPair, closedPair] ! 0)
   \<and> expanded (faqClick 1 [openPair, closedPair] ! 1)
   \<and> \<not> expanded (faqClick 0 [openPair, closedPair] ! 0)"
proof -
  have 1: "consistent [openPair, closedPair] \<and> openCount [openPair, closedPair] \<le> 1"
    by (simp add: consistent_def openCount_def expanded_def openPair_def closedPair_def)
  have 2: "(0::nat) < length [openPair, closedPair] \<and> (1::nat) < length [openPair, closedPair]
      \<and> expanded ([openPair, closedPair] ! 0) \<and> \<not> expanded ([openPair, closedPair] ! 1)"
    by (simp add: expanded_def openPair_def closedPair_def)
  from faq_at_most_one_expanded [of "[openPair, closedPair]" "[1, 1, 0, 1]" 0 1] 1 2
  have 3: "openCount (faqClicks [openPair, closedPair] [1, 1, 0, 1]) \<le> 1
      \<and> \<not> expanded (faqClick 1 [openPair, closedPair] ! 0)
      \<and> expanded (faqClick 1 [openPair, closedPair] ! 1)"
    by simp
  from faq_at_most_one_expanded [of "[openPair, closedPair]" "[]" 0 0] 2
  have 4: "\<not> expanded (faqClick 0 [openPair, closedPair] ! 0)"
    by simp
  from 1 2 3 4 show ?thesis by blast
qed

section \<open>Scroll reveal\<close>

text \<open>
  Claim C10: the reveal is monotonic. An element that is revealed, with opacity 1 and no
  offset, is still revealed after any sequence of load, scroll and timer events, whatever
  the layout at each of them: \<open>handleScrollAnimations\<close> writes the revealed style only.
\<close>

theorem reveal_monotonic:
  assumes "i < length (animatedElements s)" and "revealed (animatedElements s ! i)"
  shows "i < length (animatedElements (run s evs)) \<and> revealed (animatedElements (run s evs) ! i)"
  using assms by (rule run_revealed)

text \<open>
  Claim C10 on an element that is revealed at load on a wide window and then scrolled
  below the fold.
\<close>

theorem reveal_monotonic_witness:
  "(0::nat) < length (animatedElements (run (pageLoad [offsetElement]) [DOMContentLoaded desktopInView]))
   \<and> \<not> revealed offsetElement
   \<and> revealed (animatedElements (run (pageLoad [offsetElement]) [DOMContentLoaded desktopInView]) ! 0)
   \<and> revealed (animatedElements
        (run (run (pageLoad [offsetElement]) [DOMContentLoaded desktopInView])
           [Scroll desktopBelowFold, TimeoutFired desktopBelowFold, Scroll desktopBelowFold]) ! 0)"
proof -
  have 1: "(0::nat) < length (animatedElements (run (pageLoad [offsetElement]) [DOMContentLoaded desktopInView]))"
    by (simp add: loaded_in_view)
  have 2: "revealed (animatedElements (run (pageLoad [offsetElement]) [DOMContentLoaded desktopInView]) ! 0)"
    by (simp add: loaded_in_view revealed_def)
  have 3: "\<not> revealed offsetElement"
    by (simp add: revealed_def offsetElement_def style_literals)
  from reveal_monotonic [OF 1 2] 1 2 3 show ?thesis by blast
qed

section \<open>Scroll reveal on a narrow viewport\<close>

text \<open>
  Claim C5 says that on a viewport of width 768 or less the reveal never runs and never
  changes the style of a tracked element. On a window 375 wide \<open>initScrollAnimations\<close>
  adds no listener and reveals nothing at load, as its comment says. The debouncing
  listener at the end of the script is added whatever the width: a scroll event sets its
  timer, and 100 ms later \<open>handleScrollAnimations\<close> runs and reveals the element.
\<close>

theorem narrow_viewport_reveals:
  "innerWidth phone \<le> 768
   \<and> animatedElements (run (pageLoad [offsetElement]) [DOMContentLoaded phone]) = [offsetElement]
   \<and> animatedElements (run (pageLoad [offsetElement])
        [DOMContentLoaded phone, Scroll phone, TimeoutFired phone]) =
       [\<lparr>animOpacity = js ''1'', animTransform = js ''translateY(0)''\<rparr>]
   \<and> offsetElement \<noteq> \<lparr>animOpacity = js ''1'', animTransform = js ''translateY(0)''\<rparr>"
  by (simp add: run_def pageLoad_def initScrollAnimations_def phone_def
      handleScrollAnimations_def revealOne_def offsetElement_def style_literals)

end
